theory Spec2Isabelle
  imports Main
begin

section \<open>The room relay of \<open>src/worker.js\<close>\<close>

text \<open>
  The class \<open>Room\<close> keeps, per room, a JavaScript \<open>Map\<close> from seat number to
  WebSocket, an array of four display names, and the platform object \<open>this.state\<close>
  that remembers, for every socket handed to \<open>acceptWebSocket\<close>, the metadata
  object \<open>{slot}\<close>.  Its handlers are embedded below as functions from the room
  to the new room and the list of transport actions they perform, in order.
  The router in front of the rooms (the default export) only picks the room and
  is not embedded; the development follows one room from its constructor on.

  Conventions of the embedding.
  \<^item> A WebSocket is an object reference; it is a natural number here.
  \<^item> A JavaScript string is a list of code units; \<open>char\<close> stands for one code unit,
    so \<open>length\<close> and \<open>take\<close> count what \<open>.length\<close> and \<open>.slice\<close> count.
  \<^item> A JavaScript number is an \<open>int\<close>: seat numbers are integers, and the relay
    never computes with the numbers of a payload.  Fractions and infinities are
    outside the model.
  \<^item> An object handed to \<open>JSON.stringify\<close> is the frame itself, a \<open>JObj\<close>;
    a property whose value is \<open>undefined\<close> is left out, as \<open>JSON.stringify\<close> does.
  \<^item> Source names starting with an underscore lose it (\<open>_allocSlot\<close> is
    \<open>allocSlot\<close>).
\<close>

subsection \<open>Values and frames\<close>

type_synonym ws = nat

datatype json =
    JNull
  | JBool bool
  | JNum int
  | JStr string
  | JArr "json list"
  | JObj "(string \<times> json) list"

text \<open>
  Property access \<open>data.key\<close> on a value that \<open>JSON.parse\<close> returned, for the keys
  the relay reads (\<open>t\<close>, \<open>name\<close>, \<open>c\<close>, \<open>i\<close>, \<open>s\<close>, \<open>st\<close>): \<open>None\<close> is
  \<open>undefined\<close>.  Numbers, booleans, strings and arrays have none of these
  properties; \<open>null\<close> is handled by the caller, since reading a property of
  \<open>null\<close> throws.  An object lists each key once.
\<close>

fun get_prop :: "json \<Rightarrow> string \<Rightarrow> json option" where
  "get_prop (JObj fs) k = map_of fs k"
| "get_prop _ k = None"

text \<open>A property of an object literal that \<open>JSON.stringify\<close> drops when undefined.\<close>

definition opt_field :: "string \<Rightarrow> json option \<Rightarrow> (string \<times> json) list" where
  "opt_field k v = (case v of None \<Rightarrow> [] | Some x \<Rightarrow> [(k, x)])"

text \<open>The nullish coalescing \<open>v ?? null\<close>.\<close>

definition or_null :: "json option \<Rightarrow> json" where
  "or_null v = (case v of None \<Rightarrow> JNull | Some x \<Rightarrow> x)"

datatype action =
    Accept ws
  | Send ws json
  | CloseConn ws nat string

datatype response = Response426 | Response101

datatype error = TypeError

subsection \<open>The JavaScript \<open>Map\<close> of seats\<close>

text \<open>
  A \<open>Map\<close> iterates in insertion order, so it is an association list: \<open>set\<close>
  replaces the value of a present key in place and appends an absent one.
\<close>

definition Map_has :: "(int \<times> ws) list \<Rightarrow> int \<Rightarrow> bool" where
  "Map_has m k = (map_of m k \<noteq> None)"

fun Map_set :: "(int \<times> ws) list \<Rightarrow> int \<Rightarrow> ws \<Rightarrow> (int \<times> ws) list" where
  "Map_set [] k v = [(k, v)]"
| "Map_set ((k', v') # m) k v = (if k' = k then (k, v) # m else (k', v') # Map_set m k v)"

definition Map_delete :: "(int \<times> ws) list \<Rightarrow> int \<Rightarrow> (int \<times> ws) list" where
  "Map_delete m k = filter (\<lambda>e. fst e \<noteq> k) m"

subsection \<open>The room\<close>

record room =
  state :: "ws \<rightharpoonup> int"
  sockets :: "(int \<times> ws) list"
  names :: "int \<rightharpoonup> string"

text \<open>The constructor: no socket accepted, no seat taken, four empty names.\<close>

definition Room :: room where
  "Room = \<lparr> state = Map.empty, sockets = [],
            names = [0 \<mapsto> [], 1 \<mapsto> [], 2 \<mapsto> [], 3 \<mapsto> []] \<rparr>"

text \<open>\<open>for (let i = 0; i < 4; i++) if (!this.sockets.has(i)) return i; return -1;\<close>\<close>

function allocSlot_loop :: "(int \<times> ws) list \<Rightarrow> int \<Rightarrow> int" where
  "allocSlot_loop m i =
     (if i < 4 then (if \<not> Map_has m i then i else allocSlot_loop m (i + 1)) else - 1)"
  by pat_completeness auto
termination
  by (relation "measure (\<lambda>(m, i). nat (4 - i))") auto

declare allocSlot_loop.simps [simp del]

definition allocSlot :: "room \<Rightarrow> int" where
  "allocSlot r = allocSlot_loop (sockets r) 0"

text \<open>
  \<open>_playersList\<close>: the loop pushes \<open>{slot: i, name: this.names[i] || ""}\<close> for each
  seat that the map has.
\<close>

definition player :: "room \<Rightarrow> int \<Rightarrow> json" where
  "player r i =
     JObj [(''slot'', JNum i),
           (''name'', JStr (case names r i of None \<Rightarrow> [] | Some n \<Rightarrow> if n = [] then [] else n))]"

function playersList_loop :: "room \<Rightarrow> int \<Rightarrow> json list \<Rightarrow> json list" where
  "playersList_loop r i out =
     (if i < 4
      then playersList_loop r (i + 1) (if Map_has (sockets r) i then out @ [player r i] else out)
      else out)"
  by pat_completeness auto
termination
  by (relation "measure (\<lambda>(r, i, out). nat (4 - i))") auto

declare playersList_loop.simps [simp del]

definition playersList :: "room \<Rightarrow> json" where
  "playersList r = JArr (playersList_loop r 0 [])"

text \<open>
  The two broadcasts send one frame to the sockets of the map in its order; a send
  that throws is swallowed, so each is one attempted \<open>Send\<close>.  The sends outside
  the broadcasts address the socket just accepted or the socket whose message is
  being handled, and are taken not to throw.
\<close>

definition broadcastAll :: "room \<Rightarrow> json \<Rightarrow> action list" where
  "broadcastAll r obj = map (\<lambda>e. Send (snd e) obj) (sockets r)"

definition broadcastExcept :: "room \<Rightarrow> int \<Rightarrow> json \<Rightarrow> action list" where
  "broadcastExcept r exceptSlot obj =
     map (\<lambda>e. Send (snd e) obj) (filter (\<lambda>e. fst e \<noteq> exceptSlot) (sockets r))"

subsection \<open>Admission: \<open>Room.fetch\<close>\<close>

text \<open>
  \<open>String.prototype.toLowerCase\<close>, whose result is only compared with
  \<open>"websocket"\<close>: the letters \<open>A\<close> to \<open>Z\<close> move to \<open>a\<close> to \<open>z\<close>, and what
  happens to a code unit outside ASCII cannot make the comparison succeed.
\<close>

definition lower_unit :: "char \<Rightarrow> char" where
  "lower_unit c =
     (let n = (of_char c :: nat) in if 65 \<le> n \<and> n \<le> 90 then char_of (n + 32) else c)"

definition toLowerCase :: "string \<Rightarrow> string" where
  "toLowerCase s = map lower_unit s"

text \<open>\<open>!upgrade || upgrade.toLowerCase() !== "websocket"\<close>, the header being absent as \<open>None\<close>.\<close>

definition not_websocket :: "string option \<Rightarrow> bool" where
  "not_websocket upgrade =
     (case upgrade of None \<Rightarrow> True | Some u \<Rightarrow> u = [] \<or> toLowerCase u \<noteq> ''websocket'')"

definition room_full_frame :: json where
  "room_full_frame =
     JObj [(''t'', JStr ''err''), (''code'', JStr ''ROOM_FULL''), (''msg'', JStr ''Room full (max 4).'')]"

text \<open>
  \<open>fetch\<close> takes the \<open>Upgrade\<close> header of the request and the server end of the
  fresh \<open>WebSocketPair\<close>.
\<close>

definition fetch :: "room \<Rightarrow> string option \<Rightarrow> ws \<Rightarrow> room \<times> action list \<times> response" where
  "fetch r upgrade server =
     (if not_websocket upgrade then (r, [], Response426)
      else
        let slot = allocSlot r in
        if slot = - 1
        then (r, [Accept server, Send server room_full_frame, CloseConn server 1008 ''room full''],
              Response101)
        else
          let r1 = r\<lparr> state := (state r)(server \<mapsto> slot) \<rparr>;
              r2 = r1\<lparr> sockets := Map_set (sockets r1) slot server \<rparr>
          in (r2,
              [Accept server,
               Send server (JObj [(''t'', JStr ''welcome''), (''slot'', JNum slot),
                                  (''players'', playersList r2)])]
              @ broadcastExcept r2 slot
                  (JObj ([(''t'', JStr ''join''), (''slot'', JNum slot)]
                         @ opt_field ''name'' (map_option JStr (names r2 slot)))),
              Response101))"

subsection \<open>Messages: \<open>Room.webSocketMessage\<close>\<close>

definition bad_json_frame :: json where
  "bad_json_frame =
     JObj [(''t'', JStr ''err''), (''code'', JStr ''BAD_JSON''), (''msg'', JStr ''Invalid JSON'')]"

text \<open>\<open>if (typeof data.s === "number") payload.s = data.s\<close>: the property added last, or not at all.\<close>

definition numeric_s :: "json \<Rightarrow> (string \<times> json) list" where
  "numeric_s data = (case get_prop data ''s'' of Some (JNum n) \<Rightarrow> [(''s'', JNum n)] | _ \<Rightarrow> [])"

text \<open>\<open>typeof data.name === "string" ? data.name.slice(0, 24) : ""\<close>\<close>

definition join_name :: "json \<Rightarrow> string" where
  "join_name data = (case get_prop data ''name'' of Some (JStr n) \<Rightarrow> take 24 n | _ \<Rightarrow> [])"

text \<open>
  \<open>JSON.parse\<close> belongs to the platform and is a parameter: \<open>None\<close> is the thrown
  \<open>SyntaxError\<close> that the handler catches.  A message that parses to \<open>null\<close> makes
  \<open>data.t\<close> throw outside the \<open>try\<close>: the handler ends with a \<open>TypeError\<close>, having
  changed and sent nothing.
\<close>

definition webSocketMessage ::
  "(string \<Rightarrow> json option) \<Rightarrow> room \<Rightarrow> ws \<Rightarrow> string \<Rightarrow> error + room \<times> action list" where
  "webSocketMessage JSON_parse r ws message =
     (case state r ws of
        None \<Rightarrow> Inr (r, [])
      | Some slot \<Rightarrow>
          (case JSON_parse message of
             None \<Rightarrow> Inr (r, [Send ws bad_json_frame])
           | Some data \<Rightarrow>
               if data = JNull then Inl TypeError
               else if get_prop data ''t'' = Some (JStr ''join'') then
                 (let name = join_name data;
                      r' = r\<lparr> names := (names r)(slot \<mapsto> name) \<rparr>
                  in Inr (r',
                          broadcastAll r'
                            (JObj [(''t'', JStr ''join''), (''slot'', JNum slot), (''name'', JStr name)])
                          @ [Send ws (JObj [(''t'', JStr ''presence''), (''players'', playersList r')])]))
               else if get_prop data ''t'' = Some (JStr ''ping'') then
                 Inr (r, [Send ws (JObj ([(''t'', JStr ''pong'')] @ opt_field ''c'' (get_prop data ''c'')))])
               else if get_prop data ''t'' = Some (JStr ''in'') then
                 Inr (r, broadcastExcept r slot
                           (JObj ([(''t'', JStr ''in''), (''slot'', JNum slot),
                                   (''i'', or_null (get_prop data ''i''))] @ numeric_s data)))
               else if get_prop data ''t'' = Some (JStr ''snap'') then
                 Inr (r, broadcastExcept r slot
                           (JObj ([(''t'', JStr ''snap''),
                                   (''st'', or_null (get_prop data ''st''))] @ numeric_s data)))
               else Inr (r, [])))"

subsection \<open>Disconnection: \<open>Room.webSocketClose\<close> and \<open>Room.webSocketError\<close>\<close>

definition webSocketClose :: "room \<Rightarrow> ws \<Rightarrow> room \<times> action list" where
  "webSocketClose r ws =
     (case state r ws of
        None \<Rightarrow> (r, [])
      | Some slot \<Rightarrow>
          let r1 = r\<lparr> sockets := Map_delete (sockets r) slot \<rparr>;
              r2 = r1\<lparr> names := (names r1)(slot \<mapsto> []) \<rparr>
          in (r2,
              broadcastAll r2 (JObj [(''t'', JStr ''leave''), (''slot'', JNum slot)])
              @ broadcastAll r2 (JObj [(''t'', JStr ''presence''), (''players'', playersList r2)])))"

definition webSocketError :: "room \<Rightarrow> ws \<Rightarrow> room \<times> action list" where
  "webSocketError r ws = webSocketClose r ws"

subsection \<open>The events of one room\<close>

text \<open>
  The platform runs the handlers of one room one at a time.  It calls \<open>fetch\<close> with
  a socket it has just created, delivers a message, a close or an error only for a
  socket that \<open>acceptWebSocket\<close> was given and that has not ended yet, and ends a
  socket with one close or one error, after which it holds the socket no longer:
  \<open>released\<close> is the platform dropping the socket and its metadata, which no line
  of the room does.  A message handler that throws leaves the room as it was.
\<close>

definition released :: "room \<Rightarrow> ws \<Rightarrow> room" where
  "released r ws = r\<lparr> state := (state r)(ws := None) \<rparr>"

inductive reachable :: "(string \<Rightarrow> json option) \<Rightarrow> room \<Rightarrow> bool"
  for JSON_parse :: "string \<Rightarrow> json option" where
  created: "reachable JSON_parse Room"
| admitted: "reachable JSON_parse r \<Longrightarrow> state r server = None \<Longrightarrow>
     reachable JSON_parse (fst (fetch r upgrade server))"
| received: "reachable JSON_parse r \<Longrightarrow> state r ws \<noteq> None \<Longrightarrow>
     webSocketMessage JSON_parse r ws message = Inr (r', acts) \<Longrightarrow>
     reachable JSON_parse r'"
| closed: "reachable JSON_parse r \<Longrightarrow> state r ws \<noteq> None \<Longrightarrow>
     reachable JSON_parse (released (fst (webSocketClose r ws)) ws)"
| errored: "reachable JSON_parse r \<Longrightarrow> state r ws \<noteq> None \<Longrightarrow>
     reachable JSON_parse (released (fst (webSocketError r ws)) ws)"

text \<open>What every reachable room satisfies; the seat map and the platform agree.\<close>

definition room_inv :: "room \<Rightarrow> bool" where
  "room_inv r \<longleftrightarrow>
     distinct (map fst (sockets r)) \<and>
     (\<forall>e \<in> set (sockets r). 0 \<le> fst e \<and> fst e < 4 \<and> state r (snd e) = Some (fst e)) \<and>
     (\<forall>w k. state r w = Some k \<longrightarrow> (k, w) \<in> set (sockets r)) \<and>
     dom (names r) = {0, 1, 2, 3} \<and>
     (\<forall>k n. names r k = Some n \<longrightarrow> length n \<le> 24 \<and> (\<not> Map_has (sockets r) k \<longrightarrow> n = []))"

subsection \<open>Sample runs\<close>

text \<open>
  The texts of five messages with the value \<open>JSON.parse\<close> gives each, and one
  text that it rejects.  The table rejects every other text; the runs below send
  none.
\<close>

definition msg_join_Al :: string where
  \<open>msg_join_Al = ''{"t":"join","name":"Al"}''\<close>

definition msg_join_long :: string where
  \<open>msg_join_long = ''{"t":"join","name":"abcdefghijklmnopqrstuvwxyz"}''\<close>

definition msg_in :: string where
  \<open>msg_in = ''{"t":"in","s":"x"}''\<close>

definition msg_snap :: string where
  \<open>msg_snap = ''{"t":"snap","st":[1],"s":7}''\<close>

definition msg_snap_bare :: string where
  \<open>msg_snap_bare = ''{"t":"snap"}''\<close>

definition msg_broken :: string where
  \<open>msg_broken = ''{"t":''\<close>

definition sample_parse :: "string \<Rightarrow> json option" where
  "sample_parse m =
     (if m = msg_join_Al then Some (JObj [(''t'', JStr ''join''), (''name'', JStr ''Al'')])
      else if m = msg_join_long
        then Some (JObj [(''t'', JStr ''join''), (''name'', JStr ''abcdefghijklmnopqrstuvwxyz'')])
      else if m = msg_in then Some (JObj [(''t'', JStr ''in''), (''s'', JStr ''x'')])
      else if m = msg_snap
        then Some (JObj [(''t'', JStr ''snap''), (''st'', JArr [JNum 1]), (''s'', JNum 7)])
      else if m = msg_snap_bare then Some (JObj [(''t'', JStr ''snap'')])
      else None)"

text \<open>
  Sockets 10, 11, 12 and 13 are admitted in turn; \<open>room_gap\<close> is the room of three
  after socket 11 closed, \<open>room_named\<close> the room of two after socket 11 sent
  \<open>msg_join_long\<close>.
\<close>

definition room_1 :: room where
  "room_1 = fst (fetch Room (Some ''websocket'') 10)"

definition room_2 :: room where
  "room_2 = fst (fetch room_1 (Some ''websocket'') 11)"

definition room_3 :: room where
  "room_3 = fst (fetch room_2 (Some ''websocket'') 12)"

definition room_4 :: room where
  "room_4 = fst (fetch room_3 (Some ''websocket'') 13)"

definition room_gap :: room where
  "room_gap = released (fst (webSocketClose room_3 11)) 11"

definition room_named :: room where
  "room_named = room_2\<lparr> names := (names room_2)(1 \<mapsto> ''abcdefghijklmnopqrstuvwx'') \<rparr>"

section \<open>Facts about the embedding\<close>

subsection \<open>The loops unrolled, the seat map\<close>

lemma allocSlot_unfold:
  "allocSlot r =
     (if \<not> Map_has (sockets r) 0 then 0
      else if \<not> Map_has (sockets r) 1 then 1
      else if \<not> Map_has (sockets r) 2 then 2
      else if \<not> Map_has (sockets r) 3 then 3 else - 1)"
  unfolding allocSlot_def
  by (simp add: allocSlot_loop.simps [of _ 0] allocSlot_loop.simps [of _ 1]
      allocSlot_loop.simps [of _ 2] allocSlot_loop.simps [of _ 3] allocSlot_loop.simps [of _ 4])

lemma playersList_unfold:
  "playersList r =
     JArr (concat (map (\<lambda>i. if Map_has (sockets r) i then [player r i] else []) [0, 1, 2, 3]))"
  unfolding playersList_def
  by (simp add: playersList_loop.simps [of _ 0] playersList_loop.simps [of _ 1]
      playersList_loop.simps [of _ 2] playersList_loop.simps [of _ 3] playersList_loop.simps [of _ 4])

lemma Map_has_iff: "Map_has m k \<longleftrightarrow> k \<in> fst ` set m"
  by (simp add: Map_has_def map_of_eq_None_iff)

lemma Map_set_absent: "\<not> Map_has m k \<Longrightarrow> Map_set m k v = m @ [(k, v)]"
  by (induction m) (auto simp: Map_has_iff)

lemma Map_has_delete: "Map_has (Map_delete m k) j \<longleftrightarrow> Map_has m j \<and> j \<noteq> k"
  by (auto simp: Map_has_iff Map_delete_def)

lemma allocSlot_free:
  "allocSlot r \<noteq> - 1 \<Longrightarrow>
     0 \<le> allocSlot r \<and> allocSlot r < 4 \<and> \<not> Map_has (sockets r) (allocSlot r)"
  by (simp add: allocSlot_unfold split: if_splits)

lemma room_inv_Room: "room_inv Room"
  by (auto simp: room_inv_def Room_def Map_has_iff split: if_splits)

lemma room_inv_fetch:
  assumes inv: "room_inv r" and fresh: "state r server = None"
  shows "room_inv (fst (fetch r upgrade server))"
proof (cases "not_websocket upgrade \<or> allocSlot r = - 1")
  case True
  then show ?thesis using inv by (auto simp: fetch_def)
next
  case False
  define k where "k = allocSlot r"
  from False have k: "0 \<le> k" "k < 4" "\<not> Map_has (sockets r) k"
    using allocSlot_free [of r] by (simp_all add: k_def)
  have eq: "fst (fetch r upgrade server) =
      r\<lparr> state := (state r)(server \<mapsto> k), sockets := sockets r @ [(k, server)] \<rparr>"
    using False k by (simp add: fetch_def Let_def k_def Map_set_absent)
  have nosrv: "\<forall>e \<in> set (sockets r). snd e \<noteq> server"
    using inv fresh by (auto simp: room_inv_def)
  show ?thesis
    unfolding eq using inv k nosrv fresh
    by (auto simp: room_inv_def Map_has_iff)
qed

lemma room_inv_rename:
  assumes inv: "room_inv r" and has: "Map_has (sockets r) k" and len: "length n \<le> 24"
  shows "room_inv (r\<lparr> names := (names r)(k \<mapsto> n) \<rparr>)"
proof -
  from has inv have "k \<in> {0, 1, 2, 3}" by (fastforce simp: room_inv_def Map_has_iff)
  with inv have "k \<in> dom (names r)" by (simp add: room_inv_def)
  then have "dom ((names r)(k \<mapsto> n)) = dom (names r)" by auto
  moreover have "\<forall>j m. ((names r)(k \<mapsto> n)) j = Some m \<longrightarrow>
      length m \<le> 24 \<and> (\<not> Map_has (sockets r) j \<longrightarrow> m = [])"
    using inv has len by (simp add: room_inv_def)
  ultimately show ?thesis using inv by (simp add: room_inv_def)
qed

lemma join_name_length: "length (join_name d) \<le> 24"
  by (simp add: join_name_def split: option.splits json.splits)

lemma room_inv_message:
  assumes inv: "room_inv r" and run: "webSocketMessage P r ws m = Inr (r', acts)"
  shows "room_inv r'"
proof (cases "state r ws")
  case None
  then show ?thesis using inv run by (simp add: webSocketMessage_def)
next
  case (Some k)
  then have seat: "(k, ws) \<in> set (sockets r)" using inv by (simp add: room_inv_def)
  then have has: "Map_has (sockets r) k" by (force simp: Map_has_iff)
  have "r' = r \<or> (\<exists>d. r' = r\<lparr> names := (names r)(k \<mapsto> join_name d) \<rparr>)"
    using run Some
    by (auto simp: webSocketMessage_def Let_def split: option.splits if_splits)
  then show ?thesis
    using inv has by (auto simp: room_inv_rename join_name_length)
qed

lemma room_inv_close:
  assumes inv: "room_inv r" and live: "state r ws \<noteq> None"
  shows "room_inv (released (fst (webSocketClose r ws)) ws)"
proof -
  from live obtain k where k: "state r ws = Some k" by auto
  then have seat: "(k, ws) \<in> set (sockets r)" using inv by (simp add: room_inv_def)
  from seat inv have rng: "k \<in> {0, 1, 2, 3}" by (fastforce simp: room_inv_def)
  have eq: "released (fst (webSocketClose r ws)) ws =
      r\<lparr> state := (state r)(ws := None), sockets := Map_delete (sockets r) k,
         names := (names r)(k \<mapsto> []) \<rparr>"
    using k by (simp add: webSocketClose_def released_def Let_def)
  have other: "\<And>w j. w \<noteq> ws \<Longrightarrow> state r w = Some j \<Longrightarrow> j \<noteq> k"
  proof
    fix w j assume "w \<noteq> ws" "state r w = Some j" "j = k"
    then have "(k, w) \<in> set (sockets r)" using inv by (simp add: room_inv_def)
    with seat inv \<open>w \<noteq> ws\<close> show False
      by (auto simp: room_inv_def dest: eq_key_imp_eq_value)
  qed
  show ?thesis
    unfolding eq using inv rng other k
    apply (simp add: room_inv_def Map_has_delete)
    apply (auto simp: Map_delete_def distinct_map_filter)
    done
qed

lemma reachable_inv: "reachable P r \<Longrightarrow> room_inv r"
proof (induction rule: reachable.induct)
  case created
  show ?case by (rule room_inv_Room)
next
  case (admitted r server upgrade)
  then show ?case by (simp add: room_inv_fetch)
next
  case (received r ws message r' acts)
  then show ?case by (blast intro: room_inv_message)
next
  case (closed r ws)
  then show ?case by (simp add: room_inv_close)
next
  case (errored r ws)
  then show ?case by (simp add: room_inv_close webSocketError_def)
qed

lemma seat_cases: "0 \<le> (j::int) \<Longrightarrow> j < 4 \<Longrightarrow> j = 0 \<or> j = 1 \<or> j = 2 \<or> j = 3"
  by arith

lemma seats_bounded:
  assumes "room_inv r"
  shows "length (sockets r) \<le> 4" and "length (sockets r) = 4 \<Longrightarrow> allocSlot r = - 1"
proof -
  let ?K = "fst ` set (sockets r)"
  from assms have d: "distinct (map fst (sockets r))" and sub: "?K \<subseteq> {0, 1, 2, 3}"
    by (auto simp: room_inv_def dest: seat_cases)
  from d have len: "length (sockets r) = card ?K"
    using distinct_card [of "map fst (sockets r)"] by simp
  have "card ?K \<le> card {0, 1, 2, 3 :: int}" using sub by (intro card_mono) auto
  then show "length (sockets r) \<le> 4" using len by simp
  assume "length (sockets r) = 4"
  then have "card ?K = card {0, 1, 2, 3 :: int}" using len by simp
  then have "?K = {0, 1, 2, 3}" using sub by (intro card_subset_eq) auto
  then show "allocSlot r = - 1" by (simp add: allocSlot_unfold Map_has_iff)
qed

subsection \<open>Sessions of a room that satisfies the invariant\<close>

lemma seated:
  assumes "room_inv r" and "state r ws = Some k"
  shows "(k, ws) \<in> set (sockets r)" and "Map_has (sockets r) k" and "k \<in> {0, 1, 2, 3}"
proof -
  show seat: "(k, ws) \<in> set (sockets r)" using assms by (simp add: room_inv_def)
  then show "Map_has (sockets r) k" by (force simp: Map_has_iff)
  from seat assms(1) show "k \<in> {0, 1, 2, 3}" by (fastforce simp: room_inv_def dest: seat_cases)
qed

lemma others_by_socket:
  assumes inv: "room_inv r" and k: "state r ws = Some k"
  shows "filter (\<lambda>e. fst e \<noteq> k) (sockets r) = filter (\<lambda>e. snd e \<noteq> ws) (sockets r)"
proof (rule filter_cong [OF refl])
  fix e assume e: "e \<in> set (sockets r)"
  have seat: "(k, ws) \<in> set (sockets r)" using seated(1) [OF inv k] .
  have d: "distinct (map fst (sockets r))" using inv by (simp add: room_inv_def)
  have "fst e = k \<longleftrightarrow> snd e = ws"
  proof
    assume "fst e = k"
    then have "(k, snd e) \<in> set (sockets r)" using e by (metis prod.collapse)
    with seat d show "snd e = ws" by (rule_tac eq_key_imp_eq_value)
  next
    assume "snd e = ws"
    moreover have "state r (snd e) = Some (fst e)" using inv e by (simp add: room_inv_def)
    ultimately show "fst e = k" using k by simp
  qed
  then show "(fst e \<noteq> k) = (snd e \<noteq> ws)" by simp
qed

lemma sockets_distinct:
  assumes inv: "room_inv r"
  shows "distinct (map snd (sockets r))"
proof -
  have d: "distinct (sockets r)" using inv by (simp add: room_inv_def distinct_map)
  have "inj_on snd (set (sockets r))"
  proof (rule inj_onI)
    fix a b assume a: "a \<in> set (sockets r)" and b: "b \<in> set (sockets r)" and eq: "snd a = snd b"
    from inv a b have "state r (snd a) = Some (fst a)" "state r (snd b) = Some (fst b)"
      by (simp_all add: room_inv_def)
    with eq show "a = b" by (simp add: prod_eq_iff)
  qed
  with d show ?thesis by (simp add: distinct_map)
qed

lemma player_entry:
  "names r k = Some n \<Longrightarrow> player r k = JObj [(''slot'', JNum k), (''name'', JStr n)]"
  by (simp add: player_def)

lemma playersList_mem:
  assumes "k \<in> {0, 1, 2, 3}" and "Map_has (sockets r) k"
  shows "\<exists>xs. playersList r = JArr xs \<and> player r k \<in> set xs"
  using assms by (auto simp: playersList_unfold)

lemma playersList_absent:
  assumes "\<not> Map_has (sockets r) k" and "playersList r = JArr xs"
  shows "JObj [(''slot'', JNum k), (''name'', JStr n)] \<notin> set xs"
  using assms by (auto simp: playersList_unfold player_def split: if_splits)

subsection \<open>The sample runs evaluated\<close>

lemma websocket_header: "\<not> not_websocket (Some ''websocket'')"
  by (simp add: not_websocket_def toLowerCase_def lower_unit_def)

lemma room_1_eq:
  "room_1 = Room\<lparr> state := [10 \<mapsto> 0], sockets := [(0, 10)] \<rparr>"
  by (simp add: room_1_def fetch_def websocket_header allocSlot_unfold Map_has_def Room_def Let_def)

lemma room_2_eq:
  "room_2 = Room\<lparr> state := [10 \<mapsto> 0, 11 \<mapsto> 1], sockets := [(0, 10), (1, 11)] \<rparr>"
  by (simp add: room_2_def room_1_eq fetch_def websocket_header allocSlot_unfold Map_has_def Room_def Let_def)

lemma room_3_eq:
  "room_3 = Room\<lparr> state := [10 \<mapsto> 0, 11 \<mapsto> 1, 12 \<mapsto> 2], sockets := [(0, 10), (1, 11), (2, 12)] \<rparr>"
  by (simp add: room_3_def room_2_eq fetch_def websocket_header allocSlot_unfold Map_has_def Room_def Let_def)

lemma room_4_eq:
  "room_4 = Room\<lparr> state := [10 \<mapsto> 0, 11 \<mapsto> 1, 12 \<mapsto> 2, 13 \<mapsto> 3],
                   sockets := [(0, 10), (1, 11), (2, 12), (3, 13)] \<rparr>"
  by (simp add: room_4_def room_3_eq fetch_def websocket_header allocSlot_unfold Map_has_def Room_def Let_def)

lemma room_gap_eq:
  "room_gap = Room\<lparr> state := [10 \<mapsto> 0, 12 \<mapsto> 2], sockets := [(0, 10), (2, 12)] \<rparr>"
  by (auto simp: room_gap_def room_3_eq webSocketClose_def released_def Map_delete_def Room_def Let_def
      fun_eq_iff)

lemma parse_join_long:
  "sample_parse msg_join_long =
     Some (JObj [(''t'', JStr ''join''), (''name'', JStr ''abcdefghijklmnopqrstuvwxyz'')])"
  by (simp add: sample_parse_def msg_join_long_def msg_join_Al_def)

lemma room_named_run:
  "\<exists>acts. webSocketMessage sample_parse room_2 11 msg_join_long = Inr (room_named, acts)"
  by (simp add: webSocketMessage_def room_2_eq parse_join_long join_name_def room_named_def Room_def Let_def)

lemma reachable_room_1: "reachable P room_1"
  unfolding room_1_def by (rule reachable.admitted [OF reachable.created]) (simp add: Room_def)

lemma reachable_room_2: "reachable P room_2"
  unfolding room_2_def by (rule reachable.admitted [OF reachable_room_1]) (simp add: room_1_eq Room_def)

lemma reachable_room_3: "reachable P room_3"
  unfolding room_3_def by (rule reachable.admitted [OF reachable_room_2]) (simp add: room_2_eq Room_def)

lemma reachable_room_4: "reachable P room_4"
  unfolding room_4_def by (rule reachable.admitted [OF reachable_room_3]) (simp add: room_3_eq Room_def)

lemma reachable_room_gap: "reachable P room_gap"
  unfolding room_gap_def by (rule reachable.closed [OF reachable_room_3]) (simp add: room_3_eq Room_def)

lemma reachable_room_named: "reachable sample_parse room_named"
proof -
  obtain acts where "webSocketMessage sample_parse room_2 11 msg_join_long = Inr (room_named, acts)"
    using room_named_run by blast
  then show ?thesis
    by (rule reachable.received [OF reachable_room_2, rotated]) (simp add: room_2_eq Room_def)
qed

lemma parse_in: "sample_parse msg_in = Some (JObj [(''t'', JStr ''in''), (''s'', JStr ''x'')])"
  by (simp add: sample_parse_def msg_in_def msg_join_long_def msg_join_Al_def)

lemma parse_snap:
  "sample_parse msg_snap = Some (JObj [(''t'', JStr ''snap''), (''st'', JArr [JNum 1]), (''s'', JNum 7)])"
  by (simp add: sample_parse_def msg_snap_def msg_in_def msg_join_long_def msg_join_Al_def)

lemma parse_snap_bare: "sample_parse msg_snap_bare = Some (JObj [(''t'', JStr ''snap'')])"
  by (simp add: sample_parse_def msg_snap_bare_def msg_snap_def msg_in_def msg_join_long_def
      msg_join_Al_def)

lemma parse_broken: "sample_parse msg_broken = None"
  by (simp add: sample_parse_def msg_broken_def msg_snap_bare_def msg_snap_def msg_in_def
      msg_join_long_def msg_join_Al_def)

lemma room_2_state: "state room_2 10 = Some 0" "state room_2 11 = Some 1" "state room_2 99 = None"
  by (simp_all add: room_2_eq)

lemma room_2_sockets: "sockets room_2 = [(0, 10), (1, 11)]"
  by (simp add: room_2_eq)

section \<open>The claims\<close>

text \<open>
  C1.  In every reachable room at most four seats are occupied.  A \<open>fetch\<close> that
  asks for a WebSocket while four seats are occupied accepts the connection, sends
  it the one frame \<open>{t:"err", code:"ROOM_FULL", msg:"Room full (max 4)."}\<close>,
  closes it with code 1008 and returns the room as it was: no seat, name or
  metadata changes, and no action addresses another socket.
\<close>

theorem C1_capacity_and_room_full:
  assumes "reachable JSON_parse r"
  shows "length (sockets r) \<le> 4 \<and>
         (length (sockets r) = 4 \<and> \<not> not_websocket upgrade \<longrightarrow>
            fetch r upgrade server =
              (r,
               [Accept server,
                Send server (JObj [(''t'', JStr ''err''), (''code'', JStr ''ROOM_FULL''),
                                   (''msg'', JStr ''Room full (max 4).'')]),
                CloseConn server 1008 ''room full''],
               Response101))"
  using seats_bounded [OF reachable_inv [OF assms]]
  by (simp add: fetch_def room_full_frame_def)

theorem C1_capacity_and_room_full_witness:
  "length (sockets room_4) = 4 \<and> \<not> not_websocket (Some ''websocket'') \<and>
   fetch room_4 (Some ''websocket'') 14 =
     (room_4,
      [Accept 14,
       Send 14 (JObj [(''t'', JStr ''err''), (''code'', JStr ''ROOM_FULL''),
                      (''msg'', JStr ''Room full (max 4).'')]),
       CloseConn 14 1008 ''room full''],
      Response101)"
proof -
  have full: "length (sockets room_4) = 4" by (simp add: room_4_eq)
  from C1_capacity_and_room_full [OF reachable_room_4 [of sample_parse], of "Some ''websocket''" 14]
  show ?thesis using full websocket_header by simp
qed

text \<open>
  C2.  When some seat of 0..3 is empty, \<open>_allocSlot\<close> returns an empty seat of
  0..3 below which every seat is occupied, and an admission binds the new socket
  to that seat.
\<close>

theorem C2_lowest_empty_seat:
  assumes "\<exists>i. 0 \<le> i \<and> i < 4 \<and> \<not> Map_has (sockets r) i"
  shows "0 \<le> allocSlot r \<and> allocSlot r < 4 \<and> \<not> Map_has (sockets r) (allocSlot r) \<and>
         (\<forall>j. 0 \<le> j \<and> j < allocSlot r \<longrightarrow> Map_has (sockets r) j) \<and>
         (\<not> not_websocket upgrade \<longrightarrow>
            state (fst (fetch r upgrade server)) server = Some (allocSlot r) \<and>
            sockets (fst (fetch r upgrade server)) = sockets r @ [(allocSlot r, server)])"
proof -
  from assms obtain i where i: "i = 0 \<or> i = 1 \<or> i = 2 \<or> i = 3" "\<not> Map_has (sockets r) i"
    using seat_cases by blast
  then have ne: "allocSlot r \<noteq> - 1" by (auto simp: allocSlot_unfold)
  have low: "\<forall>j. 0 \<le> j \<and> j < allocSlot r \<longrightarrow> Map_has (sockets r) j"
  proof (intro allI impI)
    fix j assume j: "0 \<le> j \<and> j < allocSlot r"
    then have "j < 4" using allocSlot_free [OF ne] by linarith
    with j have "j = 0 \<or> j = 1 \<or> j = 2 \<or> j = 3" using seat_cases [of j] by blast
    then show "Map_has (sockets r) j"
      using j by (elim disjE) (simp_all add: allocSlot_unfold split: if_splits)
  qed
  show ?thesis
    using allocSlot_free [OF ne] low ne
    by (simp add: fetch_def Let_def Map_set_absent)
qed

theorem C2_lowest_empty_seat_witness:
  "\<not> Map_has (sockets room_gap) 1 \<and> allocSlot room_gap = 1 \<and>
   sockets (fst (fetch room_gap (Some ''websocket'') 14)) = [(0, 10), (2, 12), (1, 14)]"
proof -
  have free: "\<not> Map_has (sockets room_gap) 1" by (simp add: room_gap_eq Map_has_def)
  then have h: "\<exists>i. 0 \<le> i \<and> i < 4 \<and> \<not> Map_has (sockets room_gap) i" by (intro exI [of _ 1]) simp
  have k: "allocSlot room_gap = 1" by (simp add: allocSlot_unfold room_gap_eq Map_has_def)
  from C2_lowest_empty_seat [OF h, of "Some ''websocket''" 14]
  show ?thesis using free k websocket_header by (simp add: room_gap_eq)
qed

text \<open>
  The \<open>snap\<close> frame has no \<open>slot\<close>: in the room of two, socket 10 at seat 0
  sends \<open>msg_snap\<close>, and the frame that socket 11 receives carries \<open>t\<close>, \<open>st\<close>
  and \<open>s\<close> only.
\<close>

theorem C3_snap_slot_counterexample:
  "state room_2 10 = Some 0 \<and>
   webSocketMessage sample_parse room_2 10 msg_snap =
     Inr (room_2, [Send 11 (JObj [(''t'', JStr ''snap''), (''st'', JArr [JNum 1]), (''s'', JNum 7)])]) \<and>
   get_prop (JObj [(''t'', JStr ''snap''), (''st'', JArr [JNum 1]), (''s'', JNum 7)]) ''slot'' = None"
  by (simp add: webSocketMessage_def room_2_state room_2_sockets parse_snap broadcastExcept_def
      numeric_s_def or_null_def)

text \<open>
  C3, as the code has it.  The frame relayed for a \<open>snap\<close> message of the session
  at seat \<open>k\<close> is \<open>{t:"snap", st}\<close>, with \<open>st\<close> the sender's \<open>st\<close> or \<open>null\<close>,
  followed by \<open>s\<close> exactly when the sender's \<open>s\<close> is a number; it has no \<open>slot\<close>
  property.  It goes to the seats other than \<open>k\<close>.
\<close>

theorem C3_snap_frame_without_slot:
  assumes "state r ws = Some k" and "JSON_parse message = Some data"
    and "get_prop data ''t'' = Some (JStr ''snap'')"
  shows "webSocketMessage JSON_parse r ws message =
           Inr (r, broadcastExcept r k
                     (JObj ([(''t'', JStr ''snap''), (''st'', or_null (get_prop data ''st''))]
                            @ numeric_s data))) \<and>
         get_prop (JObj ([(''t'', JStr ''snap''), (''st'', or_null (get_prop data ''st''))]
                         @ numeric_s data)) ''slot'' = None \<and>
         (numeric_s data = [] \<or> (\<exists>n. get_prop data ''s'' = Some (JNum n) \<and> numeric_s data = [(''s'', JNum n)]))"
proof -
  from assms(3) have "data \<noteq> JNull" by auto
  then have "webSocketMessage JSON_parse r ws message =
           Inr (r, broadcastExcept r k
                     (JObj ([(''t'', JStr ''snap''), (''st'', or_null (get_prop data ''st''))]
                            @ numeric_s data)))"
    using assms by (simp add: webSocketMessage_def)
  moreover have "numeric_s data = [] \<or> (\<exists>n. get_prop data ''s'' = Some (JNum n) \<and> numeric_s data = [(''s'', JNum n)])"
    by (simp add: numeric_s_def split: option.splits json.splits)
  moreover from this have "get_prop (JObj ([(''t'', JStr ''snap''), (''st'', or_null (get_prop data ''st''))]
                         @ numeric_s data)) ''slot'' = None"
    by auto
  ultimately show ?thesis by blast
qed

theorem C3_snap_frame_without_slot_witness:
  "webSocketMessage sample_parse room_2 10 msg_snap =
     Inr (room_2, [Send 11 (JObj [(''t'', JStr ''snap''), (''st'', JArr [JNum 1]), (''s'', JNum 7)])])"
proof -
  have t: "get_prop (JObj [(''t'', JStr ''snap''), (''st'', JArr [JNum 1]), (''s'', JNum 7)]) ''t''
             = Some (JStr ''snap'')"
    by simp
  from C3_snap_frame_without_slot [where JSON_parse = sample_parse and message = msg_snap,
      OF room_2_state(1) parse_snap t]
  show ?thesis by (simp add: broadcastExcept_def room_2_sockets numeric_s_def or_null_def)
qed

text \<open>
  C4.  A \<open>join\<close> message of the open session at seat \<open>k\<close>: the name is the first
  24 code units of the string \<open>name\<close>, or empty when \<open>name\<close> is missing or not a
  string; it becomes \<open>names[k]\<close>; every socket of the seat map, the sender among
  them, is sent \<open>{t:"join", slot:k, name}\<close>; then the sender is sent
  \<open>{t:"presence", players}\<close>, computed on the updated room and listing
  \<open>{slot:k, name}\<close>.
\<close>

theorem C4_join:
  assumes "reachable JSON_parse r" and "state r ws = Some k"
    and "JSON_parse message = Some data" and "get_prop data ''t'' = Some (JStr ''join'')"
  shows "webSocketMessage JSON_parse r ws message =
           Inr (r\<lparr> names := (names r)(k \<mapsto> join_name data) \<rparr>,
                map (\<lambda>e. Send (snd e)
                            (JObj [(''t'', JStr ''join''), (''slot'', JNum k),
                                   (''name'', JStr (join_name data))]))
                    (sockets r)
                @ [Send ws (JObj [(''t'', JStr ''presence''),
                                  (''players'',
                                   playersList (r\<lparr> names := (names r)(k \<mapsto> join_name data) \<rparr>))])]) \<and>
         (k, ws) \<in> set (sockets r) \<and>
         (\<exists>xs. playersList (r\<lparr> names := (names r)(k \<mapsto> join_name data) \<rparr>) = JArr xs \<and>
               JObj [(''slot'', JNum k), (''name'', JStr (join_name data))] \<in> set xs) \<and>
         (\<forall>n. get_prop data ''name'' = Some (JStr n) \<longrightarrow> join_name data = take 24 n) \<and>
         ((\<forall>n. get_prop data ''name'' \<noteq> Some (JStr n)) \<longrightarrow> join_name data = [])"
proof -
  let ?r' = "r\<lparr> names := (names r)(k \<mapsto> join_name data) \<rparr>"
  note inv = reachable_inv [OF assms(1)]
  from assms(4) have "data \<noteq> JNull" by auto
  then have run: "webSocketMessage JSON_parse r ws message =
           Inr (?r',
                map (\<lambda>e. Send (snd e)
                            (JObj [(''t'', JStr ''join''), (''slot'', JNum k),
                                   (''name'', JStr (join_name data))]))
                    (sockets r)
                @ [Send ws (JObj [(''t'', JStr ''presence''), (''players'', playersList ?r')])])"
    using assms(2-4) by (simp add: webSocketMessage_def Let_def broadcastAll_def)
  have "\<exists>xs. playersList ?r' = JArr xs \<and> player ?r' k \<in> set xs"
    using seated(2,3) [OF inv assms(2)] by (intro playersList_mem) simp_all
  moreover have "player ?r' k = JObj [(''slot'', JNum k), (''name'', JStr (join_name data))]"
    by (rule player_entry) simp
  ultimately have listed: "\<exists>xs. playersList ?r' = JArr xs \<and>
      JObj [(''slot'', JNum k), (''name'', JStr (join_name data))] \<in> set xs"
    by simp
  have name1: "\<forall>n. get_prop data ''name'' = Some (JStr n) \<longrightarrow> join_name data = take 24 n"
    by (simp add: join_name_def)
  have name2: "(\<forall>n. get_prop data ''name'' \<noteq> Some (JStr n)) \<longrightarrow> join_name data = []"
    by (simp add: join_name_def split: option.splits json.splits)
  from run seated(1) [OF inv assms(2)] listed name1 name2 show ?thesis by blast
qed

theorem C4_join_witness:
  "webSocketMessage sample_parse room_2 11 msg_join_long =
     Inr (room_named,
          [Send 10 (JObj [(''t'', JStr ''join''), (''slot'', JNum 1),
                          (''name'', JStr ''abcdefghijklmnopqrstuvwx'')]),
           Send 11 (JObj [(''t'', JStr ''join''), (''slot'', JNum 1),
                          (''name'', JStr ''abcdefghijklmnopqrstuvwx'')]),
           Send 11 (JObj [(''t'', JStr ''presence''),
                          (''players'',
                           JArr [JObj [(''slot'', JNum 0), (''name'', JStr [])],
                                 JObj [(''slot'', JNum 1),
                                       (''name'', JStr ''abcdefghijklmnopqrstuvwx'')]])])])"
proof -
  have t: "get_prop (JObj [(''t'', JStr ''join''), (''name'', JStr ''abcdefghijklmnopqrstuvwxyz'')]) ''t''
             = Some (JStr ''join'')"
    by simp
  have nm: "join_name (JObj [(''t'', JStr ''join''), (''name'', JStr ''abcdefghijklmnopqrstuvwxyz'')])
              = ''abcdefghijklmnopqrstuvwx''"
    by (simp add: join_name_def)
  have pl: "playersList room_named =
      JArr [JObj [(''slot'', JNum 0), (''name'', JStr [])],
            JObj [(''slot'', JNum 1), (''name'', JStr ''abcdefghijklmnopqrstuvwx'')]]"
    by (simp add: playersList_unfold room_named_def room_2_eq Map_has_def player_def Room_def)
  from C4_join [where JSON_parse = sample_parse and message = msg_join_long,
      OF reachable_room_2 room_2_state(2) parse_join_long t]
  show ?thesis
    unfolding nm room_named_def [symmetric] pl by (simp add: room_2_sockets)
qed

text \<open>
  C5.  The frame relayed for an \<open>in\<close> or a \<open>snap\<close> message of the open session
  \<open>ws\<close> at seat \<open>k\<close> is sent once to each socket of the seat map other than
  \<open>ws\<close>, in the order of the map, and to nobody else; \<open>ws\<close> itself holds seat
  \<open>k\<close> and no socket holds two seats.
\<close>

theorem C5_relay_excludes_sender:
  assumes "reachable JSON_parse r" and "state r ws = Some k" and "JSON_parse message = Some data"
  shows "(get_prop data ''t'' = Some (JStr ''in'') \<longrightarrow>
            webSocketMessage JSON_parse r ws message =
              Inr (r, map (\<lambda>e. Send (snd e)
                                 (JObj ([(''t'', JStr ''in''), (''slot'', JNum k),
                                         (''i'', or_null (get_prop data ''i''))] @ numeric_s data)))
                          (filter (\<lambda>e. snd e \<noteq> ws) (sockets r)))) \<and>
         (get_prop data ''t'' = Some (JStr ''snap'') \<longrightarrow>
            webSocketMessage JSON_parse r ws message =
              Inr (r, map (\<lambda>e. Send (snd e)
                                 (JObj ([(''t'', JStr ''snap''),
                                         (''st'', or_null (get_prop data ''st''))] @ numeric_s data)))
                          (filter (\<lambda>e. snd e \<noteq> ws) (sockets r)))) \<and>
         (k, ws) \<in> set (sockets r) \<and> distinct (map snd (sockets r))"
proof -
  note inv = reachable_inv [OF assms(1)]
  note others = others_by_socket [OF inv assms(2)]
  have "get_prop data ''t'' = Some (JStr ''in'') \<longrightarrow>
            webSocketMessage JSON_parse r ws message =
              Inr (r, map (\<lambda>e. Send (snd e)
                                 (JObj ([(''t'', JStr ''in''), (''slot'', JNum k),
                                         (''i'', or_null (get_prop data ''i''))] @ numeric_s data)))
                          (filter (\<lambda>e. snd e \<noteq> ws) (sockets r)))"
  proof
    assume a: "get_prop data ''t'' = Some (JStr ''in'')"
    then have "data \<noteq> JNull" by auto
    then show "webSocketMessage JSON_parse r ws message =
              Inr (r, map (\<lambda>e. Send (snd e)
                                 (JObj ([(''t'', JStr ''in''), (''slot'', JNum k),
                                         (''i'', or_null (get_prop data ''i''))] @ numeric_s data)))
                          (filter (\<lambda>e. snd e \<noteq> ws) (sockets r)))"
      using assms(2,3) a by (simp add: webSocketMessage_def broadcastExcept_def others)
  qed
  moreover have "get_prop data ''t'' = Some (JStr ''snap'') \<longrightarrow>
            webSocketMessage JSON_parse r ws message =
              Inr (r, map (\<lambda>e. Send (snd e)
                                 (JObj ([(''t'', JStr ''snap''),
                                         (''st'', or_null (get_prop data ''st''))] @ numeric_s data)))
                          (filter (\<lambda>e. snd e \<noteq> ws) (sockets r)))"
  proof
    assume a: "get_prop data ''t'' = Some (JStr ''snap'')"
    then have "data \<noteq> JNull" by auto
    then show "webSocketMessage JSON_parse r ws message =
              Inr (r, map (\<lambda>e. Send (snd e)
                                 (JObj ([(''t'', JStr ''snap''),
                                         (''st'', or_null (get_prop data ''st''))] @ numeric_s data)))
                          (filter (\<lambda>e. snd e \<noteq> ws) (sockets r)))"
      using assms(2,3) a by (simp add: webSocketMessage_def broadcastExcept_def others)
  qed
  ultimately show ?thesis
    using seated(1) [OF inv assms(2)] sockets_distinct [OF inv] by blast
qed

theorem C5_relay_excludes_sender_witness:
  "webSocketMessage sample_parse room_3 11 msg_in =
     Inr (room_3, [Send 10 (JObj [(''t'', JStr ''in''), (''slot'', JNum 1), (''i'', JNull)]),
                   Send 12 (JObj [(''t'', JStr ''in''), (''slot'', JNum 1), (''i'', JNull)])]) \<and>
   webSocketMessage sample_parse room_3 11 msg_snap =
     Inr (room_3, [Send 10 (JObj [(''t'', JStr ''snap''), (''st'', JArr [JNum 1]), (''s'', JNum 7)]),
                   Send 12 (JObj [(''t'', JStr ''snap''), (''st'', JArr [JNum 1]), (''s'', JNum 7)])])"
proof -
  have s: "state room_3 11 = Some 1" by (simp add: room_3_eq)
  have m: "sockets room_3 = [(0, 10), (1, 11), (2, 12)]" by (simp add: room_3_eq)
  from C5_relay_excludes_sender [where JSON_parse = sample_parse and message = msg_in,
      OF reachable_room_3 s parse_in]
    C5_relay_excludes_sender [where JSON_parse = sample_parse and message = msg_snap,
      OF reachable_room_3 s parse_snap]
  show ?thesis by (simp add: m numeric_s_def or_null_def)
qed

text \<open>
  C6.  Closing the socket bound to seat \<open>k\<close> removes seat \<open>k\<close> from the map, sets
  \<open>names[k]\<close> to the empty string, sends \<open>{t:"leave", slot:k}\<close> to every
  remaining socket and then \<open>{t:"presence", players}\<close> to the same sockets, the
  listing computed on the new room and without an entry for seat \<open>k\<close>.  For a
  socket without metadata the handler changes and sends nothing.  The error
  handler is the close handler.
\<close>

theorem C6_disconnect:
  "(state r ws = Some k \<longrightarrow>
      (let r' = r\<lparr> sockets := Map_delete (sockets r) k, names := (names r)(k \<mapsto> []) \<rparr>
       in webSocketClose r ws =
            (r',
             map (\<lambda>e. Send (snd e) (JObj [(''t'', JStr ''leave''), (''slot'', JNum k)])) (sockets r')
             @ map (\<lambda>e. Send (snd e) (JObj [(''t'', JStr ''presence''), (''players'', playersList r')]))
                 (sockets r')) \<and>
          \<not> Map_has (sockets r') k \<and>
          (\<forall>xs n. playersList r' = JArr xs \<longrightarrow>
                   JObj [(''slot'', JNum k), (''name'', JStr n)] \<notin> set xs))) \<and>
   (state r ws = None \<longrightarrow> webSocketClose r ws = (r, [])) \<and>
   webSocketError r ws = webSocketClose r ws"
proof (intro conjI impI)
  assume k: "state r ws = Some k"
  define r' where "r' = r\<lparr> sockets := Map_delete (sockets r) k, names := (names r)(k \<mapsto> []) \<rparr>"
  have gone: "\<not> Map_has (sockets r') k" by (simp add: r'_def Map_has_delete)
  have run: "webSocketClose r ws =
            (r',
             map (\<lambda>e. Send (snd e) (JObj [(''t'', JStr ''leave''), (''slot'', JNum k)])) (sockets r')
             @ map (\<lambda>e. Send (snd e) (JObj [(''t'', JStr ''presence''), (''players'', playersList r')]))
                 (sockets r'))"
    using k by (simp add: webSocketClose_def Let_def broadcastAll_def r'_def)
  have absent: "\<forall>xs n. playersList r' = JArr xs \<longrightarrow>
                   JObj [(''slot'', JNum k), (''name'', JStr n)] \<notin> set xs"
    using playersList_absent [OF gone] by blast
  show "let r' = r\<lparr> sockets := Map_delete (sockets r) k, names := (names r)(k \<mapsto> []) \<rparr>
       in webSocketClose r ws =
            (r',
             map (\<lambda>e. Send (snd e) (JObj [(''t'', JStr ''leave''), (''slot'', JNum k)])) (sockets r')
             @ map (\<lambda>e. Send (snd e) (JObj [(''t'', JStr ''presence''), (''players'', playersList r')]))
                 (sockets r')) \<and>
          \<not> Map_has (sockets r') k \<and>
          (\<forall>xs n. playersList r' = JArr xs \<longrightarrow>
                   JObj [(''slot'', JNum k), (''name'', JStr n)] \<notin> set xs)"
    unfolding Let_def using run gone absent by (simp only: r'_def) blast
next
  assume "state r ws = None"
  then show "webSocketClose r ws = (r, [])" by (simp add: webSocketClose_def)
next
  show "webSocketError r ws = webSocketClose r ws" by (simp add: webSocketError_def)
qed

theorem C6_disconnect_witness:
  "fst (webSocketClose room_3 11) = room_3\<lparr> sockets := [(0, 10), (2, 12)] \<rparr> \<and>
   snd (webSocketClose room_3 11) =
     [Send 10 (JObj [(''t'', JStr ''leave''), (''slot'', JNum 1)]),
      Send 12 (JObj [(''t'', JStr ''leave''), (''slot'', JNum 1)]),
      Send 10 (JObj [(''t'', JStr ''presence''),
                     (''players'', JArr [JObj [(''slot'', JNum 0), (''name'', JStr [])],
                                         JObj [(''slot'', JNum 2), (''name'', JStr [])]])]),
      Send 12 (JObj [(''t'', JStr ''presence''),
                     (''players'', JArr [JObj [(''slot'', JNum 0), (''name'', JStr [])],
                                         JObj [(''slot'', JNum 2), (''name'', JStr [])]])])] \<and>
   webSocketError room_3 99 = (room_3, [])"
proof -
  have s: "state room_3 11 = Some 1" "state room_3 99 = None" by (simp_all add: room_3_eq)
  have names: "(names room_3)(1 \<mapsto> []) = names room_3" by (auto simp: room_3_eq Room_def)
  from C6_disconnect [of room_3 11 1] C6_disconnect [of room_3 99 0]
  show ?thesis
    using s names
    by (simp add: Let_def) (simp add: room_3_eq Map_delete_def playersList_unfold Map_has_def
        player_def Room_def)
qed

text \<open>
  C7.  A successful admission at seat \<open>k\<close> sends the new socket
  \<open>{t:"welcome", slot:k, players}\<close>, the listing computed on the room that already
  holds seat \<open>k\<close> and so containing \<open>{slot:k, name:names[k]}\<close>, and then sends
  every socket seated before it \<open>{t:"join", slot:k, name:names[k]}\<close>.
\<close>

theorem C7_welcome_and_join_notice:
  assumes "reachable JSON_parse r" and "\<not> not_websocket upgrade" and "allocSlot r \<noteq> - 1"
  shows "\<exists>nm. names r (allocSlot r) = Some nm \<and>
           (let k = allocSlot r;
                r' = r\<lparr> state := (state r)(server \<mapsto> k), sockets := sockets r @ [(k, server)] \<rparr>
            in fetch r upgrade server =
                 (r',
                  [Accept server,
                   Send server (JObj [(''t'', JStr ''welcome''), (''slot'', JNum k),
                                      (''players'', playersList r')])]
                  @ map (\<lambda>e. Send (snd e)
                                (JObj [(''t'', JStr ''join''), (''slot'', JNum k), (''name'', JStr nm)]))
                        (sockets r),
                  Response101) \<and>
               (\<exists>xs. playersList r' = JArr xs \<and>
                     JObj [(''slot'', JNum k), (''name'', JStr nm)] \<in> set xs))"
proof -
  define k where "k = allocSlot r"
  define r' where "r' = r\<lparr> state := (state r)(server \<mapsto> k), sockets := sockets r @ [(k, server)] \<rparr>"
  note inv = reachable_inv [OF assms(1)]
  from allocSlot_free [OF assms(3)] have k: "0 \<le> k" "k < 4" "\<not> Map_has (sockets r) k"
    by (simp_all add: k_def)
  then have krange: "k \<in> {0, 1, 2, 3}" using seat_cases [of k] by auto
  with inv have "k \<in> dom (names r)" by (simp add: room_inv_def)
  then obtain nm where nm: "names r k = Some nm" by blast
  have others: "filter (\<lambda>e. fst e \<noteq> k) (sockets r) = sockets r"
    using k(3) by (auto simp: Map_has_iff filter_id_conv)
  have run: "fetch r upgrade server =
                 (r',
                  [Accept server,
                   Send server (JObj [(''t'', JStr ''welcome''), (''slot'', JNum k),
                                      (''players'', playersList r')])]
                  @ map (\<lambda>e. Send (snd e)
                                (JObj [(''t'', JStr ''join''), (''slot'', JNum k), (''name'', JStr nm)]))
                        (sockets r),
                  Response101)"
    using assms(2,3) k(3) nm others
    by (simp add: fetch_def Let_def k_def [symmetric] r'_def Map_set_absent broadcastExcept_def
        opt_field_def)
  have "Map_has (sockets r') k" by (simp add: r'_def Map_has_iff)
  with krange have "\<exists>xs. playersList r' = JArr xs \<and> player r' k \<in> set xs"
    by (intro playersList_mem)
  moreover have "player r' k = JObj [(''slot'', JNum k), (''name'', JStr nm)]"
    using nm by (intro player_entry) (simp add: r'_def)
  ultimately have "\<exists>xs. playersList r' = JArr xs \<and>
      JObj [(''slot'', JNum k), (''name'', JStr nm)] \<in> set xs"
    by simp
  with run nm show ?thesis
    unfolding Let_def k_def [symmetric] r'_def [symmetric] by blast
qed

theorem C7_welcome_and_join_notice_witness:
  "allocSlot room_named = 2 \<and>
   snd (fetch room_named (Some ''websocket'') 12) =
     ([Accept 12,
       Send 12 (JObj [(''t'', JStr ''welcome''), (''slot'', JNum 2),
                      (''players'',
                       JArr [JObj [(''slot'', JNum 0), (''name'', JStr [])],
                             JObj [(''slot'', JNum 1), (''name'', JStr ''abcdefghijklmnopqrstuvwx'')],
                             JObj [(''slot'', JNum 2), (''name'', JStr [])]])]),
       Send 10 (JObj [(''t'', JStr ''join''), (''slot'', JNum 2), (''name'', JStr [])]),
       Send 11 (JObj [(''t'', JStr ''join''), (''slot'', JNum 2), (''name'', JStr [])])],
      Response101)"
proof -
  have m: "sockets room_named = [(0, 10), (1, 11)]"
    by (simp add: room_named_def room_2_sockets)
  have k: "allocSlot room_named = 2"
    by (simp add: allocSlot_unfold m Map_has_def)
  have n: "names room_named 2 = Some []" "names room_named 0 = Some []"
    "names room_named 1 = Some ''abcdefghijklmnopqrstuvwx''"
    by (simp_all add: room_named_def room_2_eq Room_def)
  have free: "allocSlot room_named \<noteq> - 1" by (simp add: k)
  from C7_welcome_and_join_notice [OF reachable_room_named websocket_header free, of 12]
  show ?thesis
    by (simp add: k n m Let_def playersList_unfold Map_has_def player_def)
qed

text \<open>
  C8.  A message of a bound socket that \<open>JSON.parse\<close> rejects: the handler sends
  that socket the one frame \<open>{t:"err", code:"BAD_JSON", msg:"Invalid JSON"}\<close>,
  sends nothing else, closes nothing and returns the room unchanged.
\<close>

theorem C8_bad_json_local:
  assumes "state r ws = Some k" and "JSON_parse message = None"
  shows "webSocketMessage JSON_parse r ws message =
           Inr (r, [Send ws (JObj [(''t'', JStr ''err''), (''code'', JStr ''BAD_JSON''),
                                   (''msg'', JStr ''Invalid JSON'')])])"
  using assms by (simp add: webSocketMessage_def bad_json_frame_def)

theorem C8_bad_json_local_witness:
  "webSocketMessage sample_parse room_2 10 msg_broken =
     Inr (room_2, [Send 10 (JObj [(''t'', JStr ''err''), (''code'', JStr ''BAD_JSON''),
                                  (''msg'', JStr ''Invalid JSON'')])])"
  using C8_bad_json_local [where JSON_parse = sample_parse and message = msg_broken,
      OF room_2_state(1) parse_broken] .

text \<open>
  C9.  In every reachable room \<open>names\<close> has exactly the entries 0..3, each a
  string of at most 24 code units, and the name of a seat that is not occupied is
  the empty string.
\<close>

theorem C9_names_bounded_and_cleared:
  assumes "reachable JSON_parse r"
  shows "dom (names r) = {0, 1, 2, 3} \<and>
         (\<forall>k n. names r k = Some n \<longrightarrow>
                length n \<le> 24 \<and> (\<not> Map_has (sockets r) k \<longrightarrow> n = []))"
  using reachable_inv [OF assms] by (simp add: room_inv_def)

theorem C9_names_bounded_and_cleared_witness:
  "names room_named 1 = Some ''abcdefghijklmnopqrstuvwx'' \<and>
   length ''abcdefghijklmnopqrstuvwx'' \<le> (24 :: nat) \<and>
   \<not> Map_has (sockets room_named) 2 \<and> names room_named 2 = Some []"
proof -
  have n: "names room_named 1 = Some ''abcdefghijklmnopqrstuvwx''"
    by (simp add: room_named_def)
  have e: "\<not> Map_has (sockets room_named) 2"
    by (simp add: room_named_def room_2_sockets Map_has_def)
  have d: "2 \<in> dom (names room_named)"
    using C9_names_bounded_and_cleared [OF reachable_room_named] by simp
  then obtain m where m: "names room_named 2 = Some m" by blast
  with C9_names_bounded_and_cleared [OF reachable_room_named] n e
  show ?thesis by auto
qed

text \<open>
  C10.  An \<open>in\<close> message whose \<open>i\<close> is absent or \<open>null\<close> is relayed with
  \<open>i: null\<close>; a \<open>snap\<close> message whose \<open>st\<close> is absent is relayed with
  \<open>st: null\<close>; and an \<open>s\<close> that is not a number adds nothing to the frame.
\<close>

theorem C10_null_defaults:
  assumes "state r ws = Some k" and "JSON_parse message = Some data"
  shows "(get_prop data ''t'' = Some (JStr ''in'') \<and>
            (get_prop data ''i'' = None \<or> get_prop data ''i'' = Some JNull) \<longrightarrow>
            webSocketMessage JSON_parse r ws message =
              Inr (r, broadcastExcept r k
                        (JObj ([(''t'', JStr ''in''), (''slot'', JNum k), (''i'', JNull)]
                               @ numeric_s data)))) \<and>
         (get_prop data ''t'' = Some (JStr ''snap'') \<and> get_prop data ''st'' = None \<longrightarrow>
            webSocketMessage JSON_parse r ws message =
              Inr (r, broadcastExcept r k
                        (JObj ([(''t'', JStr ''snap''), (''st'', JNull)] @ numeric_s data)))) \<and>
         ((\<forall>n. get_prop data ''s'' \<noteq> Some (JNum n)) \<longrightarrow> numeric_s data = [])"
proof (intro conjI impI)
  assume a: "get_prop data ''t'' = Some (JStr ''in'') \<and>
            (get_prop data ''i'' = None \<or> get_prop data ''i'' = Some JNull)"
  then have "data \<noteq> JNull" by auto
  moreover from a have "or_null (get_prop data ''i'') = JNull" by (auto simp: or_null_def)
  ultimately show "webSocketMessage JSON_parse r ws message =
              Inr (r, broadcastExcept r k
                        (JObj ([(''t'', JStr ''in''), (''slot'', JNum k), (''i'', JNull)]
                               @ numeric_s data)))"
    using assms a by (simp add: webSocketMessage_def)
next
  assume a: "get_prop data ''t'' = Some (JStr ''snap'') \<and> get_prop data ''st'' = None"
  then have "data \<noteq> JNull" by auto
  then show "webSocketMessage JSON_parse r ws message =
              Inr (r, broadcastExcept r k
                        (JObj ([(''t'', JStr ''snap''), (''st'', JNull)] @ numeric_s data)))"
    using assms a by (simp add: webSocketMessage_def or_null_def)
next
  assume "\<forall>n. get_prop data ''s'' \<noteq> Some (JNum n)"
  then show "numeric_s data = []"
    by (simp add: numeric_s_def split: option.splits json.splits)
qed

theorem C10_null_defaults_witness:
  "webSocketMessage sample_parse room_2 10 msg_in =
     Inr (room_2, [Send 11 (JObj [(''t'', JStr ''in''), (''slot'', JNum 0), (''i'', JNull)])]) \<and>
   webSocketMessage sample_parse room_2 11 msg_snap_bare =
     Inr (room_2, [Send 10 (JObj [(''t'', JStr ''snap''), (''st'', JNull)])])"
  using C10_null_defaults [where JSON_parse = sample_parse and message = msg_in,
      OF room_2_state(1) parse_in]
    C10_null_defaults [where JSON_parse = sample_parse and message = msg_snap_bare,
      OF room_2_state(2) parse_snap_bare]
  by (simp add: broadcastExcept_def room_2_sockets numeric_s_def)

end
